theory Spec2Isabelle
  imports Main "HOL-Library.Sublist"
begin

section \<open>Python values used by the build scripts\<close>

text \<open>
  Strings are character lists. Positions and brace depths are Python integers (\<open>int\<close>);
  \<open>-1\<close> is the "not found" answer of \<open>str.find\<close>. Exceptions are values of
  \<open>py_error\<close>.
\<close>

datatype py_error = RuntimeError | FileNotFoundError | TypeError

definition newline :: char where
  "newline = CHR 0x0A"

definition tab :: char where
  "tab = CHR 0x09"

text \<open>\<open>find_sub sub s i\<close> scans \<open>s\<close>, whose first character has index \<open>i\<close> in the
  whole text, for the first place where \<open>sub\<close> starts.\<close>

fun find_sub :: "string \<Rightarrow> string \<Rightarrow> nat \<Rightarrow> int" where
  "find_sub sub [] i = (if sub = [] then int i else - 1)"
| "find_sub sub (c # cs) i = (if prefix sub (c # cs) then int i else find_sub sub cs (Suc i))"

text \<open>\<open>s.find(sub, start)\<close>: a negative \<open>start\<close> counts from the end, a \<open>start\<close>
  past the end finds nothing.\<close>

definition py_find :: "string \<Rightarrow> string \<Rightarrow> int \<Rightarrow> int" where
  "py_find s sub start =
     (let n = int (length s);
          st = (if start < 0 then max (start + n) 0 else start)
      in if st > n then - 1 else find_sub sub (drop (nat st) s) (nat st))"

text \<open>\<open>sub in s\<close> on strings.\<close>

definition py_in :: "string \<Rightarrow> string \<Rightarrow> bool" where
  "py_in sub s = (py_find s sub 0 \<noteq> - 1)"

text \<open>Slice bounds: \<open>s[:i]\<close> and \<open>s[i:]\<close>, with negative \<open>i\<close> counted from the end
  and every bound clipped to the string.\<close>

definition slice_bound :: "string \<Rightarrow> int \<Rightarrow> nat" where
  "slice_bound s i =
     (let n = int (length s) in nat (if i < 0 then max (i + n) 0 else min i n))"

definition slice_to :: "string \<Rightarrow> int \<Rightarrow> string" where
  "slice_to s i = take (slice_bound s i) s"

definition slice_from :: "string \<Rightarrow> int \<Rightarrow> string" where
  "slice_from s i = drop (slice_bound s i) s"

text \<open>\<open>s.replace(old, new)\<close>: every non-overlapping occurrence, left to right; an empty
  \<open>old\<close> matches before every character and at the end.\<close>

function py_replace :: "string \<Rightarrow> string \<Rightarrow> string \<Rightarrow> string" where
  "py_replace old new [] = (if old = [] then new else [])"
| "py_replace old new (c # cs) =
     (if old = [] then new @ c # py_replace old new cs
      else if prefix old (c # cs) then new @ py_replace old new (drop (length old) (c # cs))
      else c # py_replace old new cs)"
  by pat_completeness auto
termination
  by (relation "measure (\<lambda>(old, new, s). length s)") auto

text \<open>\<open>sep.join(xs)\<close>.\<close>

fun py_join :: "string \<Rightarrow> string list \<Rightarrow> string" where
  "py_join sep [] = []"
| "py_join sep [x] = x"
| "py_join sep (x # y # ys) = x @ sep @ py_join sep (y # ys)"

text \<open>\<open>s.split(sep)\<close> for a one-character separator: always at least one component.\<close>

fun py_split :: "char \<Rightarrow> string \<Rightarrow> string list" where
  "py_split sep [] = [[]]"
| "py_split sep (c # cs) =
     (if c = sep then [] # py_split sep cs
      else (case py_split sep cs of [] \<Rightarrow> [[c]] | w # ws \<Rightarrow> (c # w) # ws))"

text \<open>\<open>for line in file\<close>: the lines of a text, each with its line break; only the last
  line may lack one. Line breaks are \<open>newline\<close> (text mode has translated the others).\<close>

fun file_lines :: "string \<Rightarrow> string list" where
  "file_lines [] = []"
| "file_lines (c # cs) =
     (if c = newline then [c] # file_lines cs
      else (case file_lines cs of [] \<Rightarrow> [[c]] | l # ls \<Rightarrow> (c # l) # ls))"

text \<open>\<open>s.upper()\<close> on ASCII text.\<close>

definition py_upper_char :: "char \<Rightarrow> char" where
  "py_upper_char c =
     (case map_of (zip ''abcdefghijklmnopqrstuvwxyz'' ''ABCDEFGHIJKLMNOPQRSTUVWXYZ'') c of
        Some u \<Rightarrow> u
      | None \<Rightarrow> c)"

definition py_upper :: "string \<Rightarrow> string" where
  "py_upper s = map py_upper_char s"

text \<open>Truth value of a string-or-\<open>None\<close>: \<open>None\<close> and the empty string are false.\<close>

definition truthy :: "string option \<Rightarrow> bool" where
  "truthy v = (v \<noteq> None \<and> v \<noteq> Some [])"

text \<open>\<open>d[k] = v\<close> on an insertion-ordered dictionary: an existing key keeps its place, a new
  key goes last.\<close>

fun dict_set :: "'k \<Rightarrow> 'v \<Rightarrow> ('k \<times> 'v) list \<Rightarrow> ('k \<times> 'v) list" where
  "dict_set k v [] = [(k, v)]"
| "dict_set k v (p # ps) = (if fst p = k then (k, v) # ps else p # dict_set k v ps)"


section \<open>util.py: UUIDService\<close>

definition MAX_TRIES :: int where
  "MAX_TRIES = 8"

definition APPLE_SIZE :: nat where
  "APPLE_SIZE = 24"

text \<open>
  The service object. \<open>shortus\<close> is the \<open>uuid(name=...)\<close> method of the
  \<open>shortuuid.ShortUUID\<close> object built in \<open>__init__\<close> (an external library: a fixed function
  of the name), \<open>uuid5\<close> is \<open>str(uuid.uuid5(uuid.NAMESPACE_URL, url))\<close>.
\<close>

record UUIDService =
  uniques :: "string set"
  apples :: "string \<rightharpoonup> string"
  windows :: "string \<rightharpoonup> string"
  shortus :: "string \<Rightarrow> string"
  uuid5 :: "string \<Rightarrow> string"

definition new_UUIDService :: "(string \<Rightarrow> string) \<Rightarrow> (string \<Rightarrow> string) \<Rightarrow> UUIDService" where
  "new_UUIDService short_uuid uuid5_str =
     \<lparr>uniques = {}, apples = Map.empty, windows = Map.empty, shortus = short_uuid, uuid5 = uuid5_str\<rparr>"

text \<open>\<open>applyPrefix\<close>: the loop appends one character per index, then the copy is cut to
  the length of the uuid. In the last branch \<open>ii\<close> is below \<open>len(uuid)\<close>, since it is below
  the maximum of the two lengths and not below \<open>len(prefix)\<close>.\<close>

definition applyPrefix :: "string \<Rightarrow> string \<Rightarrow> string" where
  "applyPrefix pfx uuid =
     (let copy = foldl (\<lambda>copy ii.
                    if ii < length uuid \<and> uuid ! ii = CHR ''-'' then copy @ [uuid ! ii]
                    else if ii < length pfx then copy @ [pfx ! ii]
                    else copy @ [uuid ! ii])
                  [] [0 ..< max (length pfx) (length uuid)]
      in take (length uuid) copy)"

function compute_Apple_UUID :: "UUIDService \<Rightarrow> string \<Rightarrow> int \<Rightarrow> py_error + string" where
  "compute_Apple_UUID self url tries =
     (if tries \<ge> MAX_TRIES then Inl RuntimeError
      else let result = take APPLE_SIZE (py_upper (shortus self url))
           in if result \<in> uniques self then compute_Apple_UUID self url (tries + 1)
              else Inr result)"
  by pat_completeness auto
termination
  by (relation "measure (\<lambda>(self, url, tries). nat (MAX_TRIES - tries))") auto

text \<open>The candidates \<open>_compute_Apple_UUID_\<close> computes on its way, one per attempt: the same
  recursion, collecting \<open>result\<close>.\<close>

function Apple_UUID_candidates :: "UUIDService \<Rightarrow> string \<Rightarrow> int \<Rightarrow> string list" where
  "Apple_UUID_candidates self url tries =
     (if tries \<ge> MAX_TRIES then []
      else let result = take APPLE_SIZE (py_upper (shortus self url))
           in if result \<in> uniques self then result # Apple_UUID_candidates self url (tries + 1)
              else [result])"
  by pat_completeness auto
termination
  by (relation "measure (\<lambda>(self, url, tries). nat (MAX_TRIES - tries))") auto

definition getAppleUUID :: "UUIDService \<Rightarrow> string \<Rightarrow> py_error + string \<times> UUIDService" where
  "getAppleUUID self url =
     (case apples self url of
        Some cached \<Rightarrow> Inr (cached, self)
      | None \<Rightarrow>
          (case compute_Apple_UUID self url 0 of
             Inl e \<Rightarrow> Inl e
           | Inr result \<Rightarrow>
               if result \<noteq> [] then
                 Inr (result, self\<lparr>uniques := insert result (uniques self),
                                    apples := (apples self)(url \<mapsto> result)\<rparr>)
               else Inr (result, self)))"

function compute_Windows_UUID :: "UUIDService \<Rightarrow> string \<Rightarrow> int \<Rightarrow> py_error + string" where
  "compute_Windows_UUID self url tries =
     (if tries \<ge> MAX_TRIES then Inl RuntimeError
      else let result = py_upper (uuid5 self url)
           in if result \<in> uniques self then compute_Windows_UUID self url (tries + 1)
              else Inr result)"
  by pat_completeness auto
termination
  by (relation "measure (\<lambda>(self, url, tries). nat (MAX_TRIES - tries))") auto

definition getWindowsUUID :: "UUIDService \<Rightarrow> string \<Rightarrow> py_error + string \<times> UUIDService" where
  "getWindowsUUID self url =
     (case windows self url of
        Some cached \<Rightarrow> Inr (cached, self)
      | None \<Rightarrow>
          (case compute_Windows_UUID self url 0 of
             Inl e \<Rightarrow> Inl e
           | Inr result \<Rightarrow>
               if result \<noteq> [] then
                 Inr (result, self\<lparr>uniques := insert result (uniques self),
                                    windows := (windows self)(url \<mapsto> result)\<rparr>)
               else Inr (result, self)))"

text \<open>The states a service object goes through in one run: a fresh object, then any number
  of calls that returned.\<close>

inductive service_state :: "UUIDService \<Rightarrow> bool" where
  fresh: "service_state (new_UUIDService short_uuid uuid5_str)"
| apple: "service_state self \<Longrightarrow> getAppleUUID self url = Inr (r, self') \<Longrightarrow> service_state self'"
| windows: "service_state self \<Longrightarrow> getWindowsUUID self url = Inr (r, self') \<Longrightarrow> service_state self'"

text \<open>What \<open>shortuuid\<close> promises for the alphabet given in \<open>__init__\<close>: at least
  \<open>APPLE_SIZE\<close> characters (it pads to 29), all of that alphabet.\<close>

definition shortuuid_format :: "(string \<Rightarrow> string) \<Rightarrow> bool" where
  "shortuuid_format h =
     (\<forall>name. APPLE_SIZE \<le> length (h name) \<and> set (h name) \<subseteq> set ''abcdefABCDEF0123456789'')"


section \<open>util.py: file_replace, file_replace_after\<close>

text \<open>The files the functions read and write: a path has a text or is absent. The result of
  a call is the exception raised, if any, and the files afterwards. The mapping \<open>data\<close> is a
  dictionary in insertion order (its keys are distinct).\<close>

type_synonym files = "string \<rightharpoonup> string"

definition file_replace :: "string \<Rightarrow> (string \<times> string) list \<Rightarrow> files \<Rightarrow> py_error option \<times> files" where
  "file_replace path data fs =
     (case fs path of
        None \<Rightarrow> (Some FileNotFoundError, fs)
      | Some text \<Rightarrow>
          (let contents = foldl (\<lambda>contents (key, val). py_replace key val contents) text data
           in if contents \<noteq> [] then (None, fs(path \<mapsto> contents))
              else (Some FileNotFoundError, fs)))"

text \<open>One pass of the body of the \<open>while\<close> loop of \<open>file_replace_after\<close>: the new
  \<open>contents\<close>, \<open>pos0\<close> and \<open>pos1\<close>.\<close>

definition replace_after_body :: "string \<Rightarrow> string \<Rightarrow> string \<Rightarrow> int \<Rightarrow> string \<times> int \<times> int" where
  "replace_after_body key val contents pos1 =
     (let pos0 = py_find contents key pos1;
          pos0 = (if pos0 \<noteq> - 1 then pos0 + int (length key) else pos0);
          pos1 = py_find contents [newline] pos0;
          pos1 = (if pos1 = - 1 then int (length contents) else pos1)
      in (slice_to contents pos0 @ val @ slice_from contents pos1, pos0, pos1))"

text \<open>The \<open>while pos0 != -1\<close> loop. It need not end (an empty key never leaves it), so a
  run that does not end is \<open>None\<close>.\<close>

partial_function (option) replace_after_loop ::
  "string \<Rightarrow> string \<Rightarrow> string \<Rightarrow> int \<Rightarrow> int \<Rightarrow> string option" where
  "replace_after_loop key val contents pos0 pos1 =
     (if pos0 \<noteq> - 1 then
        (case replace_after_body key val contents pos1 of
           (contents', pos0', pos1') \<Rightarrow> replace_after_loop key val contents' pos0' pos1')
      else Some contents)"

fun replace_after_keys :: "(string \<times> string) list \<Rightarrow> string \<Rightarrow> string option" where
  "replace_after_keys [] contents = Some contents"
| "replace_after_keys ((key, val) # data) contents =
     (case replace_after_loop key val contents 0 0 of
        None \<Rightarrow> None
      | Some contents' \<Rightarrow> replace_after_keys data contents')"

definition file_replace_after ::
  "string \<Rightarrow> (string \<times> string) list \<Rightarrow> files \<Rightarrow> (py_error option \<times> files) option" where
  "file_replace_after path data fs =
     (case fs path of
        None \<Rightarrow> Some (Some FileNotFoundError, fs)
      | Some text \<Rightarrow>
          (case replace_after_keys data text of
             None \<Rightarrow> None
           | Some contents \<Rightarrow>
               if contents \<noteq> [] then Some (None, fs(path \<mapsto> contents))
               else Some (Some FileNotFoundError, fs)))"


section \<open>util.py: insert_filetree\<close>

text \<open>A filetree is a dictionary from names to subtrees; a leaf is the target name of a
  file. The root is a dictionary.\<close>

datatype filetree = Leaf string | Dir "(string \<times> filetree) list"

text \<open>
  The walk of one path, from the dictionary \<open>cur\<close> (\<open>curr\<close> in the source). The source moves \<open>prev\<close> and \<open>curr\<close>
  down the nested dictionaries and changes them in place; here the changed dictionary is
  returned. For a component that is not the last, \<open>curr[entry]\<close> must be a dictionary: on a
  leaf (a string) the next round raises TypeError, at \<open>curr[entry] = {}\<close> when the next
  component is not a substring of the target name and at \<open>curr[entry]\<close> when it is. That
  happens before the walk has created anything, so the tree is then as it was. After the
  loop \<open>prev\<close> holds the last component, so it is not empty and the leaf is assigned.
\<close>

text \<open>\<open>if not entry in curr: curr[entry] = {}\<close>.\<close>

definition ensure_dir :: "string \<Rightarrow> (string \<times> filetree) list \<Rightarrow> (string \<times> filetree) list" where
  "ensure_dir entry cur = (if map_of cur entry = None then dict_set entry (Dir []) cur else cur)"

fun insert_path :: "(string \<times> filetree) list \<Rightarrow> string list \<Rightarrow> string \<Rightarrow> py_error + (string \<times> filetree) list" where
  "insert_path cur [] target = Inr cur"
| "insert_path cur [entry] target = Inr (dict_set entry (Leaf target) (ensure_dir entry cur))"
| "insert_path cur (entry # next # rest) target =
     (let cur = ensure_dir entry cur
      in case map_of cur entry of
           Some (Dir sub) \<Rightarrow>
             (case insert_path sub (next # rest) target of
                Inl e \<Rightarrow> Inl e
              | Inr sub' \<Rightarrow> Inr (dict_set entry (Dir sub') cur))
         | _ \<Rightarrow> Inl TypeError)"

fun insert_filetree :: "(string \<times> filetree) list \<Rightarrow> string list \<Rightarrow> string \<Rightarrow> py_error + (string \<times> filetree) list" where
  "insert_filetree filetree [] target = Inr filetree"
| "insert_filetree filetree (file # files) target =
     (case insert_path filetree (py_split CHR ''/'' file) target of
        Inl e \<Rightarrow> Inl e
      | Inr filetree' \<Rightarrow> insert_filetree filetree' files target)"

text \<open>Reading a path back: \<open>filetree[p0][p1]...\<close>.\<close>

fun lookup_path :: "(string \<times> filetree) list \<Rightarrow> string list \<Rightarrow> filetree option" where
  "lookup_path cur [] = Some (Dir cur)"
| "lookup_path cur [entry] = map_of cur entry"
| "lookup_path cur (entry # next # rest) =
     (case map_of cur entry of
        Some (Dir sub) \<Rightarrow> lookup_path sub (next # rest)
      | _ \<Rightarrow> None)"


section \<open>util.py: group_parity\<close>

text \<open>\<open>parens[0]\<close> opens and \<open>parens[-1]\<close> closes; every caller passes two characters.\<close>

definition group_parity :: "string \<Rightarrow> string \<Rightarrow> int" where
  "group_parity text parens =
     foldl (\<lambda>result c. if c = hd parens then result + 1
                        else if c = last parens then result - 1
                        else result) 0 text"


section \<open>apple.py: parse_pbxproj, write_pbxproj\<close>

definition PBX_SEQUENCE :: "string list" where
  "PBX_SEQUENCE =
     [''PBXHeader'', ''PBXBuildFile'', ''PBXContainerItemProxy'', ''PBXFileReference'',
      ''PBXFrameworksBuildPhase'', ''PBXGroup'', ''PBXNativeTarget'', ''PBXProject'',
      ''PBXReferenceProxy'', ''PBXResourcesBuildPhase'', ''PBXSourcesBuildPhase'',
      ''XCBuildConfiguration'', ''XCConfigurationList'', ''PBXFooter'']"

text \<open>The model: section names in the order they were entered, each with its list of
  objects. An object is a string; the final \<open>block.append(accum)\<close> can append \<open>None\<close>.\<close>

type_synonym pbxproj = "(string \<times> string option list) list"

text \<open>
  The variables of the line scan. In the source \<open>contents[state]\<close> and \<open>block\<close> are the
  same list object; here \<open>contents\<close> holds the sections already left and \<open>block\<close> the
  list of the current one, which joins \<open>contents\<close> when the scan leaves it or ends.
\<close>

record pbx_scan_state =
  index :: nat
  block :: "string option list"
  accum :: "string option"
  brace :: int
  contents :: pbxproj
  between :: bool

definition pbx_initial :: pbx_scan_state where
  "pbx_initial = \<lparr>index = 0, block = [], accum = None, brace = 0, contents = [], between = False\<rparr>"

definition begin_banner :: "string \<Rightarrow> string" where
  "begin_banner name = ''/* Begin '' @ name @ '' section */''"

definition end_banner :: "string \<Rightarrow> string" where
  "end_banner name = ''/* End '' @ name @ '' section */''"

definition accum_line :: "string option \<Rightarrow> string \<Rightarrow> string" where
  "accum_line acc line = (case acc of None \<Rightarrow> line | Some a \<Rightarrow> a @ line)"

text \<open>One round of the \<open>for line in file\<close> loop; \<open>None\<close> is the \<open>return None\<close> after
  the message about mismatched braces.\<close>

definition pbx_step :: "pbx_scan_state \<Rightarrow> string \<Rightarrow> pbx_scan_state option" where
  "pbx_step s line =
     (let state = PBX_SEQUENCE ! index s;
          advance = (state \<noteq> ''PBXFooter'' \<and>
                     py_in (begin_banner (PBX_SEQUENCE ! (index s + 1))) line);
          complete = py_in (end_banner state) line
      in if advance \<or> (complete \<and> index s = length PBX_SEQUENCE - 2) then
           Some \<lparr>index = index s + 1, block = [], accum = None, brace = 0,
                 contents = contents s @
                   [(state, if truthy (accum s) then block s @ [accum s] else block s)],
                 between = False\<rparr>
         else if state \<in> set [''PBXHeader'', ''PBXFooter''] then
           Some (s\<lparr>accum := Some (accum_line (accum s) line)\<rparr>)
         else if complete then
           (if truthy (accum s) \<and> accum s \<noteq> Some [newline]
            then Some (s\<lparr>block := block s @ [accum s], between := True\<rparr>)
            else Some s)
         else if \<not> between s then
           (let brace' = brace s + group_parity line ''{}''
            in if brace' < 0 then None
               else let accum' = accum_line (accum s) line
                    in if brace' = 0 then
                         Some (s\<lparr>brace := brace',
                                 block := (if accum' \<noteq> [newline] then block s @ [Some accum']
                                           else block s),
                                 accum := None\<rparr>)
                       else Some (s\<lparr>brace := brace', accum := Some accum'\<rparr>))
         else Some s)"

text \<open>The condition under which a round reaches the branch that counts braces: none of the
  branches before it is taken.\<close>

definition counts_braces :: "pbx_scan_state \<Rightarrow> string \<Rightarrow> bool" where
  "counts_braces s line =
     (let state = PBX_SEQUENCE ! index s;
          advance = (state \<noteq> ''PBXFooter'' \<and>
                     py_in (begin_banner (PBX_SEQUENCE ! (index s + 1))) line);
          complete = py_in (end_banner state) line
      in \<not> (advance \<or> (complete \<and> index s = length PBX_SEQUENCE - 2)) \<and>
         state \<notin> set [''PBXHeader'', ''PBXFooter''] \<and> \<not> complete \<and> \<not> between s)"

fun pbx_scan :: "pbx_scan_state \<Rightarrow> string list \<Rightarrow> pbx_scan_state option" where
  "pbx_scan s [] = Some s"
| "pbx_scan s (line # lines) =
     (case pbx_step s line of None \<Rightarrow> None | Some s' \<Rightarrow> pbx_scan s' lines)"

text \<open>\<open>parse_pbxproj\<close> on the text of \<open>project.pbxproj\<close>.\<close>

definition parse_pbxproj :: "string \<Rightarrow> pbxproj option" where
  "parse_pbxproj text =
     (case pbx_scan pbx_initial (file_lines text) of
        None \<Rightarrow> None
      | Some s \<Rightarrow> Some (contents s @ [(PBX_SEQUENCE ! index s, block s @ [accum s])]))"

text \<open>\<open>write_pbxproj\<close>: the text written to the file; \<open>file.write(None)\<close> raises
  TypeError.\<close>

fun write_items :: "string option list \<Rightarrow> py_error + string" where
  "write_items [] = Inr []"
| "write_items (None # items) = Inl TypeError"
| "write_items (Some item # items) =
     (case write_items items of Inl e \<Rightarrow> Inl e | Inr rest \<Rightarrow> Inr (item @ rest))"

fun write_pbxproj :: "pbxproj \<Rightarrow> py_error + string" where
  "write_pbxproj [] = Inr []"
| "write_pbxproj ((state, items) # sections) =
     (let framed = (state \<notin> set [''PBXHeader'', ''PBXFooter''])
      in case write_items items of
           Inl e \<Rightarrow> Inl e
         | Inr body \<Rightarrow>
             (case write_pbxproj sections of
                Inl e \<Rightarrow> Inl e
              | Inr rest \<Rightarrow>
                  Inr ((if framed then begin_banner state @ [newline] else []) @ body @
                       (if framed then end_banner state @ [newline, newline] else []) @ rest)))"


section \<open>apple.py: place_entries and its callers\<close>

text \<open>\<open>None\<close> is the bare \<open>return\<close> taken when the anchor is not in the object.\<close>

definition place_entries :: "string \<Rightarrow> string list \<Rightarrow> string \<Rightarrow> string option" where
  "place_entries obj entries pfx =
     (let indent = [newline, tab, tab, tab, tab];
          line = py_find obj (pfx @ '' = ('') 0
      in if line = - 1 then None
         else let pos = py_find obj [newline] line;
                  children = indent @ py_join indent entries
              in Some (slice_to obj pos @ children @ slice_from obj pos))"

text \<open>The entries of a piece of an object, as the lists of a project file hold them one to a
  line: its lines that hold more than white space.\<close>

definition blank_text :: "string \<Rightarrow> bool" where
  "blank_text s = list_all (\<lambda>c. c \<in> set [CHR '' '', tab, newline]) s"

definition text_entries :: "string \<Rightarrow> string list" where
  "text_entries s = filter (\<lambda>l. \<not> blank_text l) (file_lines s)"

text \<open>The loop of \<open>populate_assets\<close> over the \<open>PBXGroup\<close> section:
  \<open>groups[pos] = place_entries(groups[pos],children,'children')\<close> for every object that
  holds the Assets marker. The section afterwards holds a string or \<open>None\<close> at each
  position.\<close>

definition populate_assets_groups :: "string list \<Rightarrow> string list \<Rightarrow> string option list" where
  "populate_assets_groups groups children =
     map (\<lambda>obj. if py_in ''/* Assets */ ='' obj then place_entries obj children ''children''
                else Some obj) groups"


section \<open>Sample values\<close>

text \<open>A service whose hash maps every name to the same 29 characters, after one call for
  the seed \<open>https://x/y\<close>: every other seed then collides with the identifier returned
  for it.\<close>

definition ex_short :: "string \<Rightarrow> string" where
  "ex_short name = ''abcdef0123456789ABCDEFabcdef0''"

definition ex_service :: UUIDService where
  "ex_service =
     \<lparr>uniques = {''ABCDEF0123456789ABCDEFAB''},
      apples = [''https://x/y'' \<mapsto> ''ABCDEF0123456789ABCDEFAB''],
      windows = Map.empty, shortus = ex_short, uuid5 = (\<lambda>url. url)\<rparr>"

text \<open>A source tree with two directories, and the same tree after
  \<open>insert_filetree(tree, ['src/b.cpp'], 'android')\<close>.\<close>

definition ex_tree :: "(string \<times> filetree) list" where
  "ex_tree = [(''src'', Dir [(''a.cpp'', Leaf ''all'')]), (''inc'', Dir [(''x.h'', Leaf ''all'')])]"

definition ex_tree1 :: "(string \<times> filetree) list" where
  "ex_tree1 = [(''src'', Dir [(''a.cpp'', Leaf ''all''), (''b.cpp'', Leaf ''android'')]),
               (''inc'', Dir [(''x.h'', Leaf ''all'')])]"

text \<open>A configuration file with a \<open>suffix:\<close> line, as \<open>__main__.py\<close> patches it.\<close>

definition ex_config :: string where
  "ex_config = ''name: Demo\<newline>suffix: true\<newline>build: out\<newline>''"

text \<open>An Assets group whose list is not called \<open>children\<close>.\<close>

definition ex_group :: string where
  "ex_group = ''AA /* Assets */ = {\<newline>kids = (\<newline>);\<newline>};\<newline>''"

text \<open>An object with a \<open>children\<close> list of one entry.\<close>

definition ex_children :: string where
  "ex_children = ''children = (\<newline>A,\<newline>);\<newline>''"

text \<open>A project text with all fourteen sections, two of them with one object. \<open>gap\<close> is
  what stands between the last closing banner and the footer: nothing in a file written by
  Xcode. \<open>ex_pbx_model\<close> is the model with the same objects and \<open>gap\<close> at the head of
  the footer.\<close>

definition ex_empty_section :: "string \<Rightarrow> string" where
  "ex_empty_section name = begin_banner name @ [newline] @ end_banner name @ [newline]"

definition ex_pbx_text :: "string \<Rightarrow> string" where
  "ex_pbx_text gap =
     ''// !$*UTF8*$!\<newline>{\<newline>objects = {\<newline>\<newline>'' @
     ''/* Begin PBXBuildFile section */\<newline>'' @
     ''A1 /* a.cpp in Sources */ = {isa = PBXBuildFile; fileRef = B1; };\<newline>'' @
     ''/* End PBXBuildFile section */\<newline>\<newline>'' @
     ex_empty_section ''PBXContainerItemProxy'' @ [newline] @
     ex_empty_section ''PBXFileReference'' @ [newline] @
     ex_empty_section ''PBXFrameworksBuildPhase'' @ [newline] @
     ''/* Begin PBXGroup section */\<newline>'' @
     ''C1 /* Source */ = {\<newline>children = (\<newline>);\<newline>};\<newline>'' @
     ''/* End PBXGroup section */\<newline>\<newline>'' @
     ex_empty_section ''PBXNativeTarget'' @ [newline] @
     ex_empty_section ''PBXProject'' @ [newline] @
     ex_empty_section ''PBXReferenceProxy'' @ [newline] @
     ex_empty_section ''PBXResourcesBuildPhase'' @ [newline] @
     ex_empty_section ''PBXSourcesBuildPhase'' @ [newline] @
     ex_empty_section ''XCBuildConfiguration'' @ [newline] @
     ex_empty_section ''XCConfigurationList'' @ gap @
     ''};\<newline>rootObject = D1;\<newline>}\<newline>''"

definition ex_pbx_model :: "string \<Rightarrow> pbxproj" where
  "ex_pbx_model gap =
     [(''PBXHeader'', [Some ''// !$*UTF8*$!\<newline>{\<newline>objects = {\<newline>\<newline>'']),
      (''PBXBuildFile'',
         [Some ''A1 /* a.cpp in Sources */ = {isa = PBXBuildFile; fileRef = B1; };\<newline>'']),
      (''PBXContainerItemProxy'', []), (''PBXFileReference'', []),
      (''PBXFrameworksBuildPhase'', []),
      (''PBXGroup'', [Some ''C1 /* Source */ = {\<newline>children = (\<newline>);\<newline>};\<newline>'']),
      (''PBXNativeTarget'', []), (''PBXProject'', []), (''PBXReferenceProxy'', []),
      (''PBXResourcesBuildPhase'', []), (''PBXSourcesBuildPhase'', []),
      (''XCBuildConfiguration'', []), (''XCConfigurationList'', []),
      (''PBXFooter'', [Some (gap @ ''};\<newline>rootObject = D1;\<newline>}\<newline>'')])]"

text \<open>The scan state after a one-line header and the first opening banner.\<close>

definition ex_mismatch_state :: pbx_scan_state where
  "ex_mismatch_state =
     \<lparr>index = 1, block = [], accum = None, brace = 0,
      contents = [(''PBXHeader'', [Some ''{\<newline>''])], between = False\<rparr>"

declare replace_after_loop.simps [code]
declare compute_Apple_UUID.simps [simp del]
declare Apple_UUID_candidates.simps [simp del]
declare compute_Windows_UUID.simps [simp del]


section \<open>UUIDService: prefix overlay\<close>

lemma foldl_snoc_map:
  "foldl (\<lambda>acc i. acc @ [f i]) acc xs = acc @ map f xs"
  by (induction xs arbitrary: acc) simp_all

lemma applyPrefix_eq:
  "applyPrefix pfx uuid =
     map (\<lambda>ii. if uuid ! ii = CHR ''-'' then uuid ! ii
              else if ii < length pfx then pfx ! ii else uuid ! ii) [0 ..< length uuid]"
proof -
  let ?g = "\<lambda>ii. if ii < length uuid \<and> uuid ! ii = CHR ''-'' then uuid ! ii
              else if ii < length pfx then pfx ! ii else uuid ! ii"
  have "(\<lambda>copy ii. if ii < length uuid \<and> uuid ! ii = CHR ''-'' then copy @ [uuid ! ii]
                    else if ii < length pfx then copy @ [pfx ! ii]
                    else copy @ [uuid ! ii]) = (\<lambda>copy ii. copy @ [?g ii])"
    by (intro ext) simp
  then have "applyPrefix pfx uuid =
      take (length uuid) (map ?g [0 ..< max (length pfx) (length uuid)])"
    by (simp add: applyPrefix_def foldl_snoc_map)
  also have "\<dots> = map ?g (take (length uuid) [0 ..< max (length pfx) (length uuid)])"
    by (simp add: take_map)
  also have "take (length uuid) [0 ..< max (length pfx) (length uuid)] = [0 ..< length uuid]"
    by (simp add: take_upt)
  finally show ?thesis by (simp cong: map_cong)
qed

text \<open>
  Claim C5. For every prefix and every identifier, \<open>applyPrefix\<close> returns a string of the
  length of the identifier, and every position that holds the separator \<open>-\<close> in the
  identifier holds \<open>-\<close> in the result.
\<close>

theorem applyPrefix_length_hyphens:
  "length (applyPrefix pfx uuid) = length uuid \<and>
   (\<forall>i < length uuid. uuid ! i = CHR ''-'' \<longrightarrow> applyPrefix pfx uuid ! i = CHR ''-'')"
  by (simp add: applyPrefix_eq)

theorem applyPrefix_length_hyphens_witness:
  "length (applyPrefix ''CDCDCDCDCDCD'' ''AB-DEF-12'') = length ''AB-DEF-12'' \<and>
   ''AB-DEF-12'' ! 2 = CHR ''-'' \<and> applyPrefix ''CDCDCDCDCDCD'' ''AB-DEF-12'' ! 2 = CHR ''-''"
  using applyPrefix_length_hyphens [of "''CDCDCDCDCDCD''" "''AB-DEF-12''"] by simp


section \<open>UUIDService: repeated calls and exhausted retries\<close>

lemma compute_Apple_UUID_Inr:
  "compute_Apple_UUID self url tries = Inr r \<Longrightarrow>
     r = take APPLE_SIZE (py_upper (shortus self url)) \<and> r \<notin> uniques self"
proof (induction self url tries rule: compute_Apple_UUID.induct)
  case (1 self url tries)
  then show ?case
    by (subst (asm) (2) compute_Apple_UUID.simps) (auto simp: Let_def split: if_splits)
qed

lemma py_upper_char_hex_all:
  "list_all (\<lambda>c. py_upper_char c \<in> set ''0123456789ABCDEF'') ''abcdefABCDEF0123456789''"
  by code_simp

lemma py_upper_char_hex:
  "c \<in> set ''abcdefABCDEF0123456789'' \<Longrightarrow> py_upper_char c \<in> set ''0123456789ABCDEF''"
  using py_upper_char_hex_all unfolding list_all_iff by blast

lemma apple_candidate_format:
  assumes "shortuuid_format h"
  shows "length (take APPLE_SIZE (py_upper (h url))) = 24 \<and>
         set (take APPLE_SIZE (py_upper (h url))) \<subseteq> set ''0123456789ABCDEF''"
proof -
  from assms have len: "APPLE_SIZE \<le> length (h url)"
    and chars: "set (h url) \<subseteq> set ''abcdefABCDEF0123456789''"
    by (simp_all add: shortuuid_format_def)
  have "length (take APPLE_SIZE (py_upper (h url))) = 24"
    using len by (simp add: py_upper_def APPLE_SIZE_def)
  moreover have "set (take APPLE_SIZE (py_upper (h url))) \<subseteq> py_upper_char ` set (h url)"
    using set_take_subset [of APPLE_SIZE "py_upper (h url)"] by (simp add: py_upper_def)
  moreover have "py_upper_char ` set (h url) \<subseteq> set ''0123456789ABCDEF''"
    using chars py_upper_char_hex by blast
  ultimately show ?thesis by blast
qed

lemma getAppleUUID_shortus: "getAppleUUID self url = Inr (r, self') \<Longrightarrow> shortus self' = shortus self"
  by (auto simp: getAppleUUID_def split: option.splits sum.splits if_splits)

lemma getWindowsUUID_shortus: "getWindowsUUID self url = Inr (r, self') \<Longrightarrow> shortus self' = shortus self"
  by (auto simp: getWindowsUUID_def split: option.splits sum.splits if_splits)

lemma getWindowsUUID_apples: "getWindowsUUID self url = Inr (r, self') \<Longrightarrow> apples self' = apples self"
  by (auto simp: getWindowsUUID_def split: option.splits sum.splits if_splits)

lemma service_state_apples:
  "service_state self \<Longrightarrow> apples self url = Some r \<Longrightarrow>
     r = take APPLE_SIZE (py_upper (shortus self url))"
proof (induction arbitrary: url r rule: service_state.induct)
  case (fresh short_uuid uuid5_str)
  then show ?case by (simp add: new_UUIDService_def)
next
  case (apple self url' r' self')
  then show ?case
    by (auto simp: getAppleUUID_def split: option.splits sum.splits if_splits
        dest: compute_Apple_UUID_Inr)
next
  case (windows self url' r' self')
  then show ?case
    by (simp add: getWindowsUUID_apples getWindowsUUID_shortus)
qed

text \<open>
  Claim C6. On one service object, a call of \<open>getAppleUUID\<close> that returns \<open>r\<close> is followed
  by a second call with the same url that returns the same \<open>r\<close> (and leaves the object as
  it is), and \<open>r\<close> is 24 characters, all of them upper-case hexadecimal digits. The
  object is in a state of a run, and the hash has the format of the library.
\<close>

theorem getAppleUUID_repeat:
  assumes "service_state self" and "shortuuid_format (shortus self)"
    and "getAppleUUID self url = Inr (r, self')"
  shows "getAppleUUID self' url = Inr (r, self') \<and>
         length r = 24 \<and> set r \<subseteq> set ''0123456789ABCDEF''"
proof -
  have r: "r = take APPLE_SIZE (py_upper (shortus self url))"
    using assms(1,3) service_state_apples [of self url]
    by (auto simp: getAppleUUID_def split: option.splits sum.splits if_splits
        dest: compute_Apple_UUID_Inr)
  then have fmt: "length r = 24 \<and> set r \<subseteq> set ''0123456789ABCDEF''"
    using apple_candidate_format [OF assms(2)] by simp
  then have "r \<noteq> []" by auto
  then have "apples self' url = Some r"
    using assms(3)
    by (auto simp: getAppleUUID_def split: option.splits sum.splits if_splits)
  then have "getAppleUUID self' url = Inr (r, self')"
    by (simp add: getAppleUUID_def)
  with fmt show ?thesis by simp
qed

lemma compute_Apple_UUID_exhausted:
  "set (Apple_UUID_candidates self url tries) \<subseteq> uniques self \<Longrightarrow>
     compute_Apple_UUID self url tries = Inl RuntimeError \<and>
     length (Apple_UUID_candidates self url tries) = nat (MAX_TRIES - tries)"
proof (induction self url tries rule: compute_Apple_UUID.induct)
  case (1 self url tries)
  show ?case
  proof (cases "tries \<ge> MAX_TRIES")
    case True
    then show ?thesis
      by (simp add: compute_Apple_UUID.simps [of self url tries]
          Apple_UUID_candidates.simps [of self url tries])
  next
    case False
    let ?c = "take APPLE_SIZE (py_upper (shortus self url))"
    from False "1.prems" have c: "?c \<in> uniques self"
      by (subst (asm) Apple_UUID_candidates.simps) (auto simp: Let_def split: if_splits)
    with False "1.prems" have "set (Apple_UUID_candidates self url (tries + 1)) \<subseteq> uniques self"
      by (subst (asm) Apple_UUID_candidates.simps) (auto simp: Let_def split: if_splits)
    with "1.IH" [OF False refl c]
    have "compute_Apple_UUID self url (tries + 1) = Inl RuntimeError \<and>
          length (Apple_UUID_candidates self url (tries + 1)) = nat (MAX_TRIES - (tries + 1))"
      by simp
    with False c show ?thesis
      by (simp add: compute_Apple_UUID.simps [of self url tries]
          Apple_UUID_candidates.simps [of self url tries] Let_def)
  qed
qed

lemma Apple_UUID_candidates_bound:
  "length (Apple_UUID_candidates self url tries) \<le> nat (MAX_TRIES - tries)"
proof (induction self url tries rule: Apple_UUID_candidates.induct)
  case (1 self url tries)
  show ?case
  proof (cases "tries \<ge> MAX_TRIES")
    case True
    then show ?thesis by (simp add: Apple_UUID_candidates.simps [of self url tries])
  next
    case False
    then show ?thesis
      using "1.IH" [OF False refl]
      by (simp add: Apple_UUID_candidates.simps [of self url tries] Let_def)
         (auto simp: MAX_TRIES_def)
  qed
qed


text \<open>
  Claim C7. If every candidate computed for a seed is among the identifiers returned
  before, \<open>_compute_Apple_UUID_\<close> raises RuntimeError after exactly 8 candidates (never
  more than \<open>MAX_TRIES\<close>), and so does \<open>getAppleUUID\<close> for a seed that is not cached: no
  identifier is returned. The recursion is total, so it never runs forever.
\<close>

theorem getAppleUUID_exhausts_retries:
  assumes "set (Apple_UUID_candidates self url 0) \<subseteq> uniques self"
  shows "compute_Apple_UUID self url 0 = Inl RuntimeError \<and>
         length (Apple_UUID_candidates self url 0) = 8 \<and>
         (apples self url = None \<longrightarrow> getAppleUUID self url = Inl RuntimeError)"
  using compute_Apple_UUID_exhausted [OF assms]
  by (simp add: getAppleUUID_def MAX_TRIES_def)

lemma ex_service_first:
  "getAppleUUID (new_UUIDService ex_short (\<lambda>url. url)) ''https://x/y'' =
     Inr (''ABCDEF0123456789ABCDEFAB'', ex_service)"
  by (simp add: getAppleUUID_def new_UUIDService_def ex_service_def ex_short_def
      compute_Apple_UUID.simps [of _ _ 0] MAX_TRIES_def APPLE_SIZE_def py_upper_def py_upper_char_def)

lemma ex_short_format: "shortuuid_format ex_short"
  by (simp add: shortuuid_format_def ex_short_def APPLE_SIZE_def)

theorem getAppleUUID_repeat_witness:
  "getAppleUUID (new_UUIDService ex_short (\<lambda>url. url)) ''https://x/y'' =
     Inr (''ABCDEF0123456789ABCDEFAB'', ex_service) \<and>
   getAppleUUID ex_service ''https://x/y'' = Inr (''ABCDEF0123456789ABCDEFAB'', ex_service)"
proof -
  have s: "service_state (new_UUIDService ex_short (\<lambda>url. url))"
    by (rule service_state.fresh)
  have f: "shortuuid_format (shortus (new_UUIDService ex_short (\<lambda>url. url)))"
    by (simp add: new_UUIDService_def ex_short_format)
  from getAppleUUID_repeat [OF s f ex_service_first] ex_service_first show ?thesis by simp
qed

lemma ex_candidates:
  "Apple_UUID_candidates ex_service ''https://x/z'' 0 = replicate 8 ''ABCDEF0123456789ABCDEFAB''"
  by (simp add: Apple_UUID_candidates.simps ex_service_def ex_short_def
      MAX_TRIES_def APPLE_SIZE_def py_upper_def py_upper_char_def numeral_eq_Suc Let_def)

theorem getAppleUUID_exhausts_retries_witness:
  "set (Apple_UUID_candidates ex_service ''https://x/z'' 0) \<subseteq> uniques ex_service \<and>
   apples ex_service ''https://x/z'' = None \<and>
   getAppleUUID ex_service ''https://x/z'' = Inl RuntimeError \<and>
   length (Apple_UUID_candidates ex_service ''https://x/z'' 0) = 8"
proof -
  have h: "set (Apple_UUID_candidates ex_service ''https://x/z'' 0) \<subseteq> uniques ex_service"
    by (simp add: ex_candidates) (simp add: ex_service_def)
  have n: "apples ex_service ''https://x/z'' = None"
    by (simp add: ex_service_def)
  from getAppleUUID_exhausts_retries [OF h] h n show ?thesis by simp
qed


section \<open>insert_filetree: inserting a path again\<close>

lemma map_of_dict_set:
  "map_of (dict_set k v d) k' = (if k' = k then Some v else map_of d k')"
  by (induction d) auto

lemma dict_set_twice: "dict_set k v2 (dict_set k v1 d) = dict_set k v2 d"
  by (induction d) auto

lemma ensure_dir_set: "ensure_dir entry (dict_set entry v cur) = dict_set entry v cur"
  by (simp add: ensure_dir_def map_of_dict_set)

lemma dict_set_ensure_dir: "dict_set entry v (ensure_dir entry cur) = dict_set entry v cur"
  by (simp add: ensure_dir_def dict_set_twice)

lemma insert_path_single:
  "insert_path cur [entry] target = Inr (dict_set entry (Leaf target) cur)"
  by (simp add: dict_set_ensure_dir)

lemma insert_path_step:
  "insert_path cur (entry # next # rest) target =
     (case map_of (ensure_dir entry cur) entry of
        Some (Dir sub) \<Rightarrow>
          (case insert_path sub (next # rest) target of
             Inl e \<Rightarrow> Inl e
           | Inr sub' \<Rightarrow> Inr (dict_set entry (Dir sub') cur))
      | _ \<Rightarrow> Inl TypeError)"
  by (simp add: Let_def dict_set_ensure_dir split: option.splits filetree.splits sum.splits)

declare insert_path.simps(2,3) [simp del]

lemma insert_path_again:
  "insert_path cur p t1 = Inr c1 \<Longrightarrow> insert_path c1 p t2 = insert_path cur p t2"
proof (induction p arbitrary: cur c1)
  case Nil
  then show ?case by simp
next
  case (Cons entry rest)
  show ?case
  proof (cases rest)
    case Nil
    with Cons.prems show ?thesis
      by (auto simp: insert_path_single dict_set_twice)
  next
    case (Cons nxt rest')
    from Cons.prems obtain sub sub' where
      sub: "map_of (ensure_dir entry cur) entry = Some (Dir sub)"
      and rec: "insert_path sub rest t1 = Inr sub'"
      and c1: "c1 = dict_set entry (Dir sub') cur"
      unfolding Cons insert_path_step
      by (auto split: option.splits filetree.splits sum.splits)
    have m: "map_of (ensure_dir entry c1) entry = Some (Dir sub')"
      by (simp add: c1 ensure_dir_set map_of_dict_set)
    have r: "insert_path sub' rest t2 = insert_path sub rest t2"
      using Cons.IH [OF rec] .
    have d: "dict_set entry v c1 = dict_set entry v cur" for v
      by (simp add: c1 dict_set_twice)
    show ?thesis
      using sub m r [unfolded Cons] unfolding Cons insert_path_step d
      by simp
  qed
qed

lemma insert_path_lookup:
  "insert_path cur p t = Inr c1 \<Longrightarrow> p \<noteq> [] \<Longrightarrow> lookup_path c1 p = Some (Leaf t)"
proof (induction p arbitrary: cur c1)
  case Nil
  then show ?case by simp
next
  case (Cons entry rest)
  show ?case
  proof (cases rest)
    case Nil
    with Cons.prems show ?thesis
      by (auto simp: insert_path_single map_of_dict_set)
  next
    case (Cons nxt rest')
    from Cons.prems obtain sub sub' where
      rec: "insert_path sub rest t = Inr sub'"
      and c1: "c1 = dict_set entry (Dir sub') cur"
      unfolding Cons insert_path_step
      by (auto split: option.splits filetree.splits sum.splits)
    have "lookup_path sub' rest = Some (Leaf t)"
      using Cons.IH [OF rec] Cons by simp
    then show ?thesis
      unfolding Cons c1 by (simp add: map_of_dict_set)
  qed
qed

lemma insert_path_tag_free:
  "insert_path cur p t1 = Inr c1 \<Longrightarrow> \<exists>c2. insert_path cur p t2 = Inr c2"
proof (induction p arbitrary: cur c1)
  case Nil
  then show ?case by simp
next
  case (Cons entry rest)
  show ?case
  proof (cases rest)
    case Nil
    then show ?thesis by (simp add: insert_path_single)
  next
    case (Cons nxt rest')
    from Cons.prems obtain sub sub' where
      sub: "map_of (ensure_dir entry cur) entry = Some (Dir sub)"
      and rec: "insert_path sub rest t1 = Inr sub'"
      unfolding Cons insert_path_step
      by (auto split: option.splits filetree.splits sum.splits)
    from Cons.IH [OF rec] obtain s2 where "insert_path sub rest t2 = Inr s2" by blast
    then show ?thesis
      using sub unfolding Cons insert_path_step by simp
  qed
qed

lemma py_split_not_Nil: "py_split sep s \<noteq> []"
  by (induction s) (auto split: list.splits)

text \<open>
  Claim C8. After \<open>insert_filetree\<close> has put a path with a tag into a filetree, putting
  the same path with the same tag again leaves the filetree as it is; putting the same
  path with another tag gives the tree that the other tag alone would have given, with
  that tag at the leaf.
\<close>

theorem insert_filetree_reinsert:
  assumes "insert_filetree filetree [file] tag = Inr filetree1"
  shows "insert_filetree filetree1 [file] tag = Inr filetree1 \<and>
         insert_filetree filetree1 [file] tag2 = insert_filetree filetree [file] tag2 \<and>
         (\<exists>filetree2. insert_filetree filetree1 [file] tag2 = Inr filetree2 \<and>
            lookup_path filetree2 (py_split CHR ''/'' file) = Some (Leaf tag2))"
proof -
  let ?p = "py_split CHR ''/'' file"
  from assms have 1: "insert_path filetree ?p tag = Inr filetree1"
    by (simp split: sum.splits)
  have again: "insert_path filetree1 ?p t = insert_path filetree ?p t" for t
    using insert_path_again [OF 1] .
  from insert_path_tag_free [OF 1] obtain f2 where 2: "insert_path filetree ?p tag2 = Inr f2"
    by blast
  have "lookup_path f2 ?p = Some (Leaf tag2)"
    using insert_path_lookup [OF 2] py_split_not_Nil by simp
  with 1 2 again show ?thesis by simp
qed

lemma ex_tree_insert: "insert_filetree ex_tree [''src/b.cpp''] ''android'' = Inr ex_tree1"
  by code_simp

theorem insert_filetree_reinsert_witness:
  "insert_filetree ex_tree [''src/b.cpp''] ''android'' = Inr ex_tree1 \<and>
   insert_filetree ex_tree1 [''src/b.cpp''] ''android'' = Inr ex_tree1 \<and>
   insert_filetree ex_tree1 [''src/b.cpp''] ''ios'' = insert_filetree ex_tree [''src/b.cpp''] ''ios''"
  using insert_filetree_reinsert [OF ex_tree_insert, of "''ios''"] ex_tree_insert by simp


section \<open>file_replace on a text that becomes empty\<close>

lemma foldl_py_replace_empty:
  "[] \<notin> fst ` set data \<Longrightarrow>
     foldl (\<lambda>contents (key, val). py_replace key val contents) [] data = []"
  by (induction data) (auto simp: case_prod_beta)

text \<open>
  Claim C10. If the file at the path exists and its text after all the substitutions is
  empty, \<open>file_replace\<close> raises FileNotFoundError and writes nothing: the files are as
  before. An existing empty file is such a case whenever no key is empty.
\<close>

theorem file_replace_empty_result:
  "(fs path = Some text \<and>
      foldl (\<lambda>contents (key, val). py_replace key val contents) text data = []
      \<longrightarrow> file_replace path data fs = (Some FileNotFoundError, fs)) \<and>
   (fs path = Some [] \<and> [] \<notin> fst ` set data
      \<longrightarrow> file_replace path data fs = (Some FileNotFoundError, fs))"
  by (auto simp: file_replace_def foldl_py_replace_empty)

theorem file_replace_empty_result_witness:
  "[''a.txt'' \<mapsto> ''__X__''] ''a.txt'' = Some ''__X__'' \<and>
   foldl (\<lambda>contents (key, val). py_replace key val contents) ''__X__'' [(''__X__'', '''')] = [] \<and>
   file_replace ''a.txt'' [(''__X__'', '''')] [''a.txt'' \<mapsto> ''__X__''] =
     (Some FileNotFoundError, [''a.txt'' \<mapsto> ''__X__'']) \<and>
   [''e.txt'' \<mapsto> ''''] ''e.txt'' = Some [] \<and> [] \<notin> fst ` set [(''__X__'', ''Demo'')] \<and>
   file_replace ''e.txt'' [(''__X__'', ''Demo'')] [''e.txt'' \<mapsto> ''''] =
     (Some FileNotFoundError, [''e.txt'' \<mapsto> ''''])"
  using file_replace_empty_result [of "[''a.txt'' \<mapsto> ''__X__'']" "''a.txt''" "''__X__''" "[(''__X__'', '''')]"]
    file_replace_empty_result [of "[''e.txt'' \<mapsto> '''']" "''e.txt''" "[]" "[(''__X__'', ''Demo'')]"]
  by simp

section \<open>place_entries without its anchor\<close>

text \<open>
  Claim C9. For an object that does not contain \<open>prefix + ' = ('\<close>, \<open>place_entries\<close>
  returns \<open>None\<close>, not the object; the loop of \<open>populate_assets\<close> that assigns the
  result back then leaves \<open>None\<close> at the position of the object.
\<close>

theorem place_entries_without_anchor:
  assumes "\<not> py_in (pfx @ '' = ('') obj"
  shows "place_entries obj entries pfx = None \<and>
         (pfx = ''children'' \<and> py_in ''/* Assets */ ='' obj \<longrightarrow>
            populate_assets_groups (before @ obj # after) entries ! length before = None)"
  using assms by (auto simp: place_entries_def py_in_def populate_assets_groups_def nth_append)

lemma ex_group_no_anchor: "\<not> py_in (''children'' @ '' = ('') ex_group"
  by code_simp

lemma ex_group_marker: "py_in ''/* Assets */ ='' ex_group"
  by code_simp

theorem place_entries_without_anchor_witness:
  "\<not> py_in (''children'' @ '' = ('') ex_group \<and> py_in ''/* Assets */ ='' ex_group \<and>
   place_entries ex_group [''X,''] ''children'' = None \<and>
   populate_assets_groups ([''B = {};''] @ ex_group # []) [''X,''] ! length [''B = {};''] = None"
  using place_entries_without_anchor [OF ex_group_no_anchor, of "[''X,'']" "[''B = {};'']" "[]"]
    ex_group_no_anchor ex_group_marker
  by simp

section \<open>file_replace_after at the end of its loop\<close>

lemma ex_config_keys:
  "replace_after_keys [(''suffix:'', '' G1234567'')] ex_config =
     Some ''name: Demo\<newline>suffix: G1234567\<newline>build: out G1234567\<newline>''"
  by code_simp

lemma ex_absent_key: "replace_after_keys [(''zzz:'', ''V'')] ''abc'' = Some ''abV''"
  by code_simp

lemma ex_skipped_key:
  "replace_after_keys [(''k:'', '' x'')] ''k: aaaaaaaaaa\<newline>k: b\<newline>c\<newline>'' =
     Some ''k: x\<newline>k: b\<newline>c x\<newline>''"
  by code_simp

text \<open>
  Claim C3, evaluated. The last round of the \<open>while\<close> loop, in which the key is no longer
  found, still assigns \<open>contents[:pos0] + data[key] + contents[pos1:]\<close> with
  \<open>pos0 = -1\<close>: the value lands at the end of the text (before a final line break, or in
  place of the last character). A key that does not occur changes the text too, and an
  occurrence on the line after a shortened line is passed over.
\<close>

theorem file_replace_after_changes_last_line:
  "file_replace_after ''config.yml'' [(''suffix:'', '' G1234567'')] [''config.yml'' \<mapsto> ex_config] =
     Some (None, [''config.yml'' \<mapsto>
       ''name: Demo\<newline>suffix: G1234567\<newline>build: out G1234567\<newline>'']) \<and>
   file_replace_after ''f'' [(''zzz:'', ''V'')] [''f'' \<mapsto> ''abc''] = Some (None, [''f'' \<mapsto> ''abV'']) \<and>
   file_replace_after ''g'' [(''k:'', '' x'')] [''g'' \<mapsto> ''k: aaaaaaaaaa\<newline>k: b\<newline>c\<newline>''] =
     Some (None, [''g'' \<mapsto> ''k: x\<newline>k: b\<newline>c x\<newline>''])"
  by (simp add: file_replace_after_def ex_config_keys ex_absent_key ex_skipped_key
      del: replace_after_keys.simps)


section \<open>place_entries: the spliced entries\<close>

lemma find_sub_found:
  "find_sub sub s i \<noteq> - 1 \<Longrightarrow>
     \<exists>k \<le> length s. find_sub sub s i = int (i + k) \<and> prefix sub (drop k s) \<and>
        (\<forall>j < k. \<not> prefix sub (drop j s))"
proof (induction s arbitrary: i)
  case Nil
  then show ?case by (auto split: if_splits)
next
  case (Cons c cs)
  show ?case
  proof (cases "prefix sub (c # cs)")
    case True
    then show ?thesis by (intro exI [of _ 0]) simp
  next
    case False
    with Cons.prems have "find_sub sub cs (Suc i) \<noteq> - 1" by simp
    from Cons.IH [OF this] obtain k where k: "k \<le> length cs"
      "find_sub sub cs (Suc i) = int (Suc i + k)" "prefix sub (drop k cs)"
      "\<forall>j < k. \<not> prefix sub (drop j cs)" by blast
    have "\<forall>j < Suc k. \<not> prefix sub (drop j (c # cs))"
    proof (intro allI impI)
      fix j assume "j < Suc k"
      then show "\<not> prefix sub (drop j (c # cs))"
        using False k(4) by (cases j) auto
    qed
    with k False show ?thesis by (intro exI [of _ "Suc k"]) simp
  qed
qed

lemma py_find_found:
  assumes "0 \<le> start" and "py_find s sub start \<noteq> - 1"
  shows "\<exists>p. py_find s sub start = int p \<and> nat start \<le> p \<and> p \<le> length s \<and>
           prefix sub (drop p s) \<and> (\<forall>j. nat start \<le> j \<and> j < p \<longrightarrow> \<not> prefix sub (drop j s))"
proof -
  from assms have le: "start \<le> int (length s)"
    and f: "py_find s sub start = find_sub sub (drop (nat start) s) (nat start)"
    by (auto simp: py_find_def Let_def split: if_splits)
  from assms(2) f find_sub_found [of sub "drop (nat start) s" "nat start"]
  obtain k where k: "k \<le> length (drop (nat start) s)"
    "find_sub sub (drop (nat start) s) (nat start) = int (nat start + k)"
    "prefix sub (drop k (drop (nat start) s))"
    "\<forall>j < k. \<not> prefix sub (drop j (drop (nat start) s))" by auto
  have "\<not> prefix sub (drop j s)" if "nat start \<le> j" "j < nat start + k" for j
  proof -
    from that have "j - nat start < k" by simp
    with k(4) have "\<not> prefix sub (drop (j - nat start) (drop (nat start) s))" by blast
    with that show ?thesis by simp
  qed
  with k le f show ?thesis
    by (intro exI [of _ "nat start + k"]) (auto simp: add.commute)
qed

lemma prefix_single: "prefix [c] (drop p s) \<longleftrightarrow> p < length s \<and> s ! p = c"
proof (cases "p < length s")
  case True
  then have "drop p s = s ! p # drop (Suc p) s" by (simp add: Cons_nth_drop_Suc)
  with True show ?thesis by auto
next
  case False
  then show ?thesis by simp
qed

lemma file_lines_Nil: "file_lines s = [] \<longleftrightarrow> s = []"
  by (cases s) (auto split: list.splits)

lemma file_lines_append:
  "file_lines (a @ newline # b) = file_lines (a @ [newline]) @ file_lines b"
proof (induction a)
  case Nil
  then show ?case by simp
next
  case (Cons c a)
  have "file_lines (a @ [newline]) \<noteq> []" by (simp add: file_lines_Nil)
  then obtain l ls where "file_lines (a @ [newline]) = l # ls"
    by (cases "file_lines (a @ [newline])") auto
  with Cons show ?case by simp
qed

lemma file_lines_line:
  "newline \<notin> set l \<Longrightarrow> file_lines (l @ [newline]) = [l @ [newline]]"
  by (induction l) auto

lemma file_lines_first:
  "newline \<notin> set l \<Longrightarrow> file_lines (l @ newline # b) = (l @ [newline]) # file_lines b"
  by (simp add: file_lines_append [of l b] file_lines_line)

lemma file_lines_entries:
  "\<forall>e \<in> set entries. newline \<notin> set (f e) \<Longrightarrow>
     file_lines (concat (map (\<lambda>e. f e @ [newline]) entries) @ rest) =
       map (\<lambda>e. f e @ [newline]) entries @ file_lines rest"
  by (induction entries) (simp_all add: file_lines_first)

lemma py_join_indent:
  "entries \<noteq> [] \<Longrightarrow> sep @ py_join sep entries = concat (map (\<lambda>e. sep @ e) entries)"
  by (induction sep entries rule: py_join.induct) simp_all

lemma concat_shift:
  "concat (map (\<lambda>e. n # f e) es) @ [n] = n # concat (map (\<lambda>e. f e @ [n]) es)"
  by (induction es) simp_all

lemma file_lines_append2:
  assumes "a = [] \<or> last a = newline"
  shows "file_lines (a @ b) = file_lines a @ file_lines b"
proof (cases "a = []")
  case True
  then show ?thesis by simp
next
  case False
  with assms have a: "a = butlast a @ [newline]"
    using append_butlast_last_id [of a] by simp
  have "file_lines (a @ b) = file_lines (butlast a @ newline # b)"
    by (subst a) simp
  also have "\<dots> = file_lines (butlast a @ [newline]) @ file_lines b"
    by (rule file_lines_append)
  finally show ?thesis using a by simp
qed

lemma text_entries_append:
  "a = [] \<or> last a = newline \<Longrightarrow> text_entries (a @ b) = text_entries a @ text_entries b"
  by (simp add: text_entries_def file_lines_append2)

lemma concat_lines_last:
  "es \<noteq> [] \<Longrightarrow> concat (map (\<lambda>e. f e @ [n]) es) \<noteq> [] \<and> last (concat (map (\<lambda>e. f e @ [n]) es)) = n"
  by (induction es rule: rev_induct) simp_all

lemma blank_text_entry_line:
  "blank_text ([tab, tab, tab, tab] @ e @ [newline]) = blank_text e"
  by (simp add: blank_text_def)

lemma text_entries_new:
  assumes "\<forall>e \<in> set entries. newline \<notin> set e \<and> \<not> blank_text e"
  shows "text_entries (concat (map (\<lambda>e. [tab, tab, tab, tab] @ e @ [newline]) entries)) =
           map (\<lambda>e. [tab, tab, tab, tab] @ e @ [newline]) entries"
proof -
  have n: "\<forall>e \<in> set entries. newline \<notin> set ([tab, tab, tab, tab] @ e)"
    using assms by (simp add: tab_def newline_def)
  have "file_lines (concat (map (\<lambda>e. ([tab, tab, tab, tab] @ e) @ [newline]) entries) @ []) =
          map (\<lambda>e. ([tab, tab, tab, tab] @ e) @ [newline]) entries @ file_lines []"
    by (rule file_lines_entries [OF n])
  then have "file_lines (concat (map (\<lambda>e. [tab, tab, tab, tab] @ e @ [newline]) entries)) =
          map (\<lambda>e. [tab, tab, tab, tab] @ e @ [newline]) entries"
    by simp
  moreover have "filter (\<lambda>l. \<not> blank_text l) (map (\<lambda>e. [tab, tab, tab, tab] @ e @ [newline]) entries) =
          map (\<lambda>e. [tab, tab, tab, tab] @ e @ [newline]) entries"
    using assms by (induction entries) (simp_all add: blank_text_def)
  ultimately show ?thesis by (simp add: text_entries_def)
qed

text \<open>
  Claim C4. Let the anchor \<open>prefix + ' = ('\<close> be found in the object, with a line break
  after it; the place of the line break is where the line on which the anchor starts ends.
  For every list of new entries, \<open>place_entries\<close> returns the object with the new
  entries put right after that line, each behind four tabs and in the given order: the
  entries before that place and the entries after it are those of the object, in their
  order, and what stands between them is what the new entries hold. When each new entry is
  one line that holds more than white space, these are exactly the new entries, so n
  entries become n + k. For an empty list the entries are those of the object (the text
  gains one line of four tabs, which is no entry).
\<close>

theorem place_entries_adds_entries:
  assumes "py_find obj (pfx @ '' = ('') 0 = line" and "line \<noteq> - 1"
    and "py_find obj [newline] line = pos" and "pos \<noteq> - 1"
  shows "0 \<le> line \<and> line \<le> pos \<and> prefix (pfx @ '' = ('') (drop (nat line) obj) \<and>
         obj ! nat pos = newline \<and>
         newline \<notin> set (take (nat pos - nat line) (drop (nat line) obj)) \<and>
         text_entries obj =
           text_entries (take (Suc (nat pos)) obj) @ text_entries (drop (Suc (nat pos)) obj) \<and>
         map_option text_entries (place_entries obj entries pfx) =
           Some (text_entries (take (Suc (nat pos)) obj) @
                 text_entries (concat (map (\<lambda>e. [tab, tab, tab, tab] @ e @ [newline]) entries)) @
                 text_entries (drop (Suc (nat pos)) obj)) \<and>
         ((\<forall>e \<in> set entries. newline \<notin> set e \<and> \<not> blank_text e) \<longrightarrow>
            map_option text_entries (place_entries obj entries pfx) =
              Some (text_entries (take (Suc (nat pos)) obj) @
                    map (\<lambda>e. [tab, tab, tab, tab] @ e @ [newline]) entries @
                    text_entries (drop (Suc (nat pos)) obj)) \<and>
            map_option length (map_option text_entries (place_entries obj entries pfx)) =
              Some (length (text_entries obj) + length entries))"
proof -
  from py_find_found [of 0 obj "pfx @ '' = (''"] assms(1,2)
  obtain l where l: "line = int l" "l \<le> length obj" "prefix (pfx @ '' = ('') (drop l obj)"
    by auto
  from py_find_found [of line obj "[newline]"] assms(3,4) l(1)
  obtain p where p: "pos = int p" "l \<le> p" "p \<le> length obj" "prefix [newline] (drop p obj)"
    "\<forall>j. l \<le> j \<and> j < p \<longrightarrow> \<not> prefix [newline] (drop j obj)"
    by auto
  from p(4) have pl: "p < length obj" and pn: "obj ! p = newline"
    by (simp_all add: prefix_single)
  have between: "newline \<notin> set (take (p - l) (drop l obj))"
  proof
    assume "newline \<in> set (take (p - l) (drop l obj))"
    then obtain i where i: "i < length (take (p - l) (drop l obj))"
      "take (p - l) (drop l obj) ! i = newline"
      by (auto simp: in_set_conv_nth)
    then have "i < p - l" "obj ! (l + i) = newline" using pl by auto
    with p(5) pl show False by (auto simp: prefix_single)
  qed
  let ?head = "take (Suc p) obj" and ?rest = "drop (Suc p) obj"
  let ?new = "concat (map (\<lambda>e. [tab, tab, tab, tab] @ e @ [newline]) entries)"
  have dropp: "drop p obj = newline # ?rest"
    using pl pn Cons_nth_drop_Suc [of p obj] by simp
  have takep: "?head = take p obj @ [newline]"
    using pl pn by (simp add: take_Suc_conv_app_nth)
  have head_end: "?head = [] \<or> last ?head = newline"
    by (simp add: takep)
  have entries_obj: "text_entries obj = text_entries ?head @ text_entries ?rest"
    using text_entries_append [OF head_end, of ?rest] by simp
  let ?ind = "[newline, tab, tab, tab, tab]"
  let ?res = "take p obj @ (?ind @ py_join ?ind entries) @ drop p obj"
  have res: "place_entries obj entries pfx = Some ?res"
    using assms(1-4) l(1) p(1,3)
    by (simp add: place_entries_def Let_def slice_to_def slice_from_def slice_bound_def)
  have entries_res: "text_entries ?res = text_entries ?head @ text_entries ?new @ text_entries ?rest"
  proof (cases "entries = []")
    case True
    have "?res = ?head @ [tab, tab, tab, tab, newline] @ ?rest"
      by (simp add: True takep dropp)
    then have "text_entries ?res =
        text_entries ?head @ text_entries ([tab, tab, tab, tab, newline] @ ?rest)"
      using text_entries_append [OF head_end] by simp
    also have "text_entries ([tab, tab, tab, tab, newline] @ ?rest) =
        text_entries [tab, tab, tab, tab, newline] @ text_entries ?rest"
      by (rule text_entries_append) simp
    also have "text_entries [tab, tab, tab, tab, newline] = []"
      by (simp add: text_entries_def blank_text_def tab_def newline_def)
    finally show ?thesis by (simp add: True text_entries_def)
  next
    case False
    have "?ind @ py_join ?ind entries =
        concat (map (\<lambda>e. newline # ([tab, tab, tab, tab] @ e)) entries)"
      using py_join_indent [OF False, of ?ind] by simp
    then have "?res = take p obj @
         (concat (map (\<lambda>e. newline # ([tab, tab, tab, tab] @ e)) entries) @ [newline]) @ ?rest"
      by (simp add: dropp)
    also have "\<dots> = take p obj @ newline #
         (concat (map (\<lambda>e. ([tab, tab, tab, tab] @ e) @ [newline]) entries) @ ?rest)"
      by (simp only: concat_shift) simp
    finally have res_eq: "?res = ?head @ ?new @ ?rest"
      by (simp add: takep)
    have new_end: "?new = [] \<or> last ?new = newline"
      using concat_lines_last [OF False, of "\<lambda>e. [tab, tab, tab, tab] @ e" newline] by simp
    have "text_entries ?res = text_entries ?head @ text_entries (?new @ ?rest)"
      unfolding res_eq by (rule text_entries_append [OF head_end])
    also have "text_entries (?new @ ?rest) = text_entries ?new @ text_entries ?rest"
      by (rule text_entries_append [OF new_end])
    finally show ?thesis .
  qed
  have exact: "map_option text_entries (place_entries obj entries pfx) =
          Some (text_entries ?head @ map (\<lambda>e. [tab, tab, tab, tab] @ e @ [newline]) entries @
                text_entries ?rest) \<and>
        map_option length (map_option text_entries (place_entries obj entries pfx)) =
          Some (length (text_entries obj) + length entries)"
    if "\<forall>e \<in> set entries. newline \<notin> set e \<and> \<not> blank_text e"
    using text_entries_new [OF that] res entries_res entries_obj by simp
  show ?thesis
    using res entries_res entries_obj exact l p(1,2) pn between by simp
qed

lemma ex_children_line: "py_find ex_children (''children'' @ '' = ('') 0 = 0"
  by code_simp

lemma ex_children_pos: "py_find ex_children [newline] 0 = 12"
  by code_simp

lemma ex_children_entries:
  "text_entries ex_children = [''children = (\<newline>'', ''A,\<newline>'', '');\<newline>''] \<and>
   text_entries (take (Suc (nat 12)) ex_children) = [''children = (\<newline>''] \<and>
   text_entries (drop (Suc (nat 12)) ex_children) = [''A,\<newline>'', '');\<newline>'']"
  by code_simp

lemma ex_children_new:
  "(\<forall>e \<in> set [''X,'', ''Y,'']. newline \<notin> set e \<and> \<not> blank_text e) \<and>
   (\<forall>e \<in> set ([] :: string list). newline \<notin> set e \<and> \<not> blank_text e)"
  by (simp add: newline_def blank_text_def tab_def)

lemma ex_children_no_entries:
  "place_entries ex_children [] ''children'' =
     Some (''children = ('' @ [newline, tab, tab, tab, tab] @ ''\<newline>A,\<newline>);\<newline>'')"
  by code_simp

theorem place_entries_adds_entries_witness:
  "py_find ex_children (''children'' @ '' = ('') 0 = 0 \<and>
   py_find ex_children [newline] 0 = 12 \<and>
   text_entries ex_children = [''children = (\<newline>'', ''A,\<newline>'', '');\<newline>''] \<and>
   newline \<notin> set ''X,'' \<and> \<not> blank_text ''X,'' \<and> newline \<notin> set ''Y,'' \<and> \<not> blank_text ''Y,'' \<and>
   map_option text_entries (place_entries ex_children [''X,'', ''Y,''] ''children'') =
     Some [''children = (\<newline>'', [tab, tab, tab, tab] @ ''X,\<newline>'',
           [tab, tab, tab, tab] @ ''Y,\<newline>'', ''A,\<newline>'', '');\<newline>''] \<and>
   place_entries ex_children [] ''children'' =
     Some (''children = ('' @ [newline, tab, tab, tab, tab] @ ''\<newline>A,\<newline>);\<newline>'') \<and>
   map_option text_entries (place_entries ex_children [] ''children'') =
     Some [''children = (\<newline>'', ''A,\<newline>'', '');\<newline>'']"
proof -
  have h3: "(0::int) \<noteq> - 1" and h4: "(12::int) \<noteq> - 1"
    by simp_all
  note two = place_entries_adds_entries [OF ex_children_line h3 ex_children_pos h4,
      of "[''X,'', ''Y,'']"]
  note none = place_entries_adds_entries [OF ex_children_line h3 ex_children_pos h4,
      of "[]"]
  have e2: "map_option text_entries (place_entries ex_children [''X,'', ''Y,''] ''children'') =
      Some (text_entries (take (Suc (nat 12)) ex_children) @
            map (\<lambda>e. [tab, tab, tab, tab] @ e @ [newline]) [''X,'', ''Y,''] @
            text_entries (drop (Suc (nat 12)) ex_children))"
    using two ex_children_new by blast
  have e0: "map_option text_entries (place_entries ex_children [] ''children'') =
      Some (text_entries (take (Suc (nat 12)) ex_children) @
            map (\<lambda>e. [tab, tab, tab, tab] @ e @ [newline]) [] @
            text_entries (drop (Suc (nat 12)) ex_children))"
    using none ex_children_new by blast
  from e2 e0 ex_children_entries ex_children_line ex_children_pos ex_children_new
    ex_children_no_entries
  show ?thesis by (simp add: newline_def)
qed


section \<open>parse_pbxproj on mismatched braces\<close>

lemma pbx_scan_append:
  "pbx_scan s (xs @ ys) = (case pbx_scan s xs of None \<Rightarrow> None | Some s' \<Rightarrow> pbx_scan s' ys)"
  by (induction xs arbitrary: s) (auto split: option.splits)

lemma pbx_step_mismatch:
  "counts_braces s line \<Longrightarrow> brace s + group_parity line ''{}'' < 0 \<Longrightarrow> pbx_step s line = None"
  by (auto simp: counts_braces_def pbx_step_def Let_def)

text \<open>
  Claim C2. If, at some line of the text, the scan reaches the branch that counts braces
  and the depth after that line is negative, \<open>parse_pbxproj\<close> returns \<open>None\<close>: the scan
  stops there and no model is returned, whatever the lines after it are.
\<close>

theorem parse_pbxproj_braces_mismatch:
  assumes "file_lines text = before @ line # after"
    and "pbx_scan pbx_initial before = Some s"
    and "counts_braces s line"
    and "brace s + group_parity line ''{}'' < 0"
  shows "parse_pbxproj text = None"
  using assms
  by (simp add: parse_pbxproj_def pbx_scan_append pbx_step_mismatch)

theorem parse_pbxproj_braces_mismatch_witness:
  "file_lines ''{\<newline>/* Begin PBXBuildFile section */\<newline>A = {};\<newline>}\<newline>B = {};\<newline>'' =
     [''{\<newline>'', ''/* Begin PBXBuildFile section */\<newline>'', ''A = {};\<newline>''] @ ''}\<newline>'' # [''B = {};\<newline>''] \<and>
   pbx_scan pbx_initial [''{\<newline>'', ''/* Begin PBXBuildFile section */\<newline>'', ''A = {};\<newline>''] =
     Some (ex_mismatch_state\<lparr>block := [Some ''A = {};\<newline>'']\<rparr>) \<and>
   counts_braces (ex_mismatch_state\<lparr>block := [Some ''A = {};\<newline>'']\<rparr>) ''}\<newline>'' \<and>
   brace (ex_mismatch_state\<lparr>block := [Some ''A = {};\<newline>'']\<rparr>) + group_parity ''}\<newline>'' ''{}'' < 0 \<and>
   parse_pbxproj ''{\<newline>/* Begin PBXBuildFile section */\<newline>A = {};\<newline>}\<newline>B = {};\<newline>'' = None"
proof -
  have l: "file_lines ''{\<newline>/* Begin PBXBuildFile section */\<newline>A = {};\<newline>}\<newline>B = {};\<newline>'' =
     [''{\<newline>'', ''/* Begin PBXBuildFile section */\<newline>'', ''A = {};\<newline>''] @ ''}\<newline>'' # [''B = {};\<newline>'']"
    by code_simp
  have s: "pbx_scan pbx_initial [''{\<newline>'', ''/* Begin PBXBuildFile section */\<newline>'', ''A = {};\<newline>''] =
     Some (ex_mismatch_state\<lparr>block := [Some ''A = {};\<newline>'']\<rparr>)"
    by code_simp
  have c: "counts_braces (ex_mismatch_state\<lparr>block := [Some ''A = {};\<newline>'']\<rparr>) ''}\<newline>''"
    by code_simp
  have b: "brace (ex_mismatch_state\<lparr>block := [Some ''A = {};\<newline>'']\<rparr>) + group_parity ''}\<newline>'' ''{}'' < 0"
    by code_simp
  from parse_pbxproj_braces_mismatch [OF l s c b] l s c b show ?thesis by blast
qed

section \<open>parse_pbxproj after write_pbxproj\<close>

lemma ex_parse0: "parse_pbxproj (ex_pbx_text []) = Some (ex_pbx_model [])"
  by code_simp

lemma ex_write0: "write_pbxproj (ex_pbx_model []) = Inr (ex_pbx_text [newline])"
  by code_simp

lemma ex_parse1: "parse_pbxproj (ex_pbx_text [newline]) = Some (ex_pbx_model [newline])"
  by code_simp

lemma ex_write1: "write_pbxproj (ex_pbx_model [newline]) = Inr (ex_pbx_text [newline, newline])"
  by code_simp

lemma ex_parse2:
  "parse_pbxproj (ex_pbx_text [newline, newline]) = Some (ex_pbx_model [newline, newline])"
  by code_simp

lemma ex_model_differs:
  "ex_pbx_model [newline] \<noteq> ex_pbx_model [] \<and> ex_pbx_model [newline, newline] \<noteq> ex_pbx_model [newline] \<and>
   ex_pbx_text [newline] \<noteq> ex_pbx_text [] \<and> ex_pbx_text [newline, newline] \<noteq> ex_pbx_text [newline]"
  by code_simp

text \<open>
  Claim C1, evaluated. \<open>write_pbxproj\<close> puts an empty line after every closing banner,
  also after the last one, where the scan is already in the footer and keeps every line.
  So the text written from the parsed model has one more empty line than the text parsed,
  and parsing it again gives a model whose footer starts with one more line break; the
  same happens again from there.
\<close>

theorem parse_write_parse_footer_grows:
  "parse_pbxproj (ex_pbx_text []) = Some (ex_pbx_model []) \<and>
   write_pbxproj (ex_pbx_model []) = Inr (ex_pbx_text [newline]) \<and>
   parse_pbxproj (ex_pbx_text [newline]) = Some (ex_pbx_model [newline]) \<and>
   ex_pbx_model [newline] \<noteq> ex_pbx_model [] \<and>
   ex_pbx_text [newline] \<noteq> ex_pbx_text [] \<and>
   write_pbxproj (ex_pbx_model [newline]) = Inr (ex_pbx_text [newline, newline]) \<and>
   parse_pbxproj (ex_pbx_text [newline, newline]) = Some (ex_pbx_model [newline, newline]) \<and>
   ex_pbx_model [newline, newline] \<noteq> ex_pbx_model [newline]"
  using ex_parse0 ex_write0 ex_parse1 ex_write1 ex_parse2 ex_model_differs by blast

end
